theory Spec2Isabelle
  imports Main "HOL-Library.Sublist"
begin

section \<open>Strings and numbers of the host language\<close>

text \<open>
  The time utilities are written in TypeScript. A string there is a sequence of UTF-16
  code units; this development covers the strings whose code units are below 256
  (Basic Latin and Latin-1 Supplement), one \<^typ>\<open>char\<close> per code unit. Numbers are
  restricted to integers, the type the hour, the minute and the interval have.
\<close>

definition code :: "char \<Rightarrow> nat" where
  "code c = of_char c"

text \<open>
  \<^verbatim>\<open>toLowerCase()\<close> on code units below 256: the letters A to Z, and the Latin-1
  capitals U+00C0 to U+00DE without the multiplication sign U+00D7, move up by 32;
  every other code unit stays.
\<close>

definition lowerChar :: "char \<Rightarrow> char" where
  "lowerChar c =
     (if (65 \<le> code c \<and> code c \<le> 90) \<or> (192 \<le> code c \<and> code c \<le> 222 \<and> code c \<noteq> 215)
      then char_of (code c + 32) else c)"

definition toLowerCase :: "string \<Rightarrow> string" where
  "toLowerCase s = map lowerChar s"

text \<open>
  The regular-expression class \<^verbatim>\<open>\s\<close> below 256: tab, line feed, vertical tab, form
  feed, carriage return, space, and the no-break space U+00A0.
\<close>

definition isSpace :: "char \<Rightarrow> bool" where
  "isSpace c = (code c \<in> {9, 10, 11, 12, 13, 32, 160})"

text \<open>\<^verbatim>\<open>replace(/\s/g, '')\<close>: every whitespace code unit is removed.\<close>

definition stripSpace :: "string \<Rightarrow> string" where
  "stripSpace s = filter (\<lambda>c. \<not> isSpace c) s"

text \<open>The class \<^verbatim>\<open>\d\<close> is the ten ASCII digits.\<close>

definition isDigit :: "char \<Rightarrow> bool" where
  "isDigit c = (48 \<le> code c \<and> code c \<le> 57)"

definition digitVal :: "char \<Rightarrow> int" where
  "digitVal c = int (code c - 48)"

text \<open>
  \<^verbatim>\<open>parseInt(ds, 10)\<close>, for the only arguments it receives here: the digit groups
  captured by \<^verbatim>\<open>\d{1,2}\<close> and \<^verbatim>\<open>\d{2}\<close>.
\<close>

definition parseInt :: "string \<Rightarrow> int" where
  "parseInt ds = foldl (\<lambda>acc c. 10 * acc + digitVal c) 0 ds"

definition digitChar :: "nat \<Rightarrow> char" where
  "digitChar d = char_of (48 + d)"

text \<open>The decimal numeral of a number, as template literals and \<^verbatim>\<open>toString()\<close> print it.\<close>

fun natToString :: "nat \<Rightarrow> string" where
  "natToString n =
     (if n < 10 then [digitChar n] else natToString (n div 10) @ [digitChar (n mod 10)])"

declare natToString.simps [simp del]

definition numToString :: "int \<Rightarrow> string" where
  "numToString i = (if i < 0 then CHR ''-'' # natToString (nat (- i)) else natToString (nat i))"

text \<open>\<^verbatim>\<open>padStart(n, c)\<close> with a one-character filler.\<close>

definition padStart :: "nat \<Rightarrow> char \<Rightarrow> string \<Rightarrow> string" where
  "padStart n c s = replicate (n - length s) c @ s"

text \<open>\<^verbatim>\<open>s.includes(sub)\<close>: \<open>sub\<close> occurs in \<open>s\<close> at some position.\<close>

fun includesStr :: "string \<Rightarrow> string \<Rightarrow> bool" where
  "includesStr [] sub = (sub = [])"
| "includesStr (c # s) sub = (prefix sub (c # s) \<or> includesStr s sub)"

text \<open>The remainder operator \<^verbatim>\<open>%\<close>: the result has the sign of the dividend.\<close>

definition jsRem :: "int \<Rightarrow> int \<Rightarrow> int" where
  "jsRem a b = sgn a * (\<bar>a\<bar> mod \<bar>b\<bar>)"

section \<open>The time utilities\<close>

record TimeValue =
  hours :: int
  minutes :: int

text \<open>
  \<^verbatim>\<open>cleaned.match(/^(\d{1,2}):(\d{2})(am|pm)$/)\<close>: the three captured groups, or no
  match. The expression is anchored at both ends, so the whole string has one of the two
  shapes \<^verbatim>\<open>D:DDxm\<close> and \<^verbatim>\<open>DD:DDxm\<close>.
\<close>

fun match12 :: "string \<Rightarrow> (string \<times> string \<times> string) option" where
  "match12 [h1, c, m1, m2, p1, p2] =
     (if isDigit h1 \<and> c = CHR '':'' \<and> isDigit m1 \<and> isDigit m2
         \<and> ([p1, p2] = ''am'' \<or> [p1, p2] = ''pm'')
      then Some ([h1], [m1, m2], [p1, p2]) else None)"
| "match12 [h1, h2, c, m1, m2, p1, p2] =
     (if isDigit h1 \<and> isDigit h2 \<and> c = CHR '':'' \<and> isDigit m1 \<and> isDigit m2
         \<and> ([p1, p2] = ''am'' \<or> [p1, p2] = ''pm'')
      then Some ([h1, h2], [m1, m2], [p1, p2]) else None)"
| "match12 _ = None"

text \<open>\<^verbatim>\<open>cleaned.match(/^(\d{1,2}):(\d{2})$/)\<close>.\<close>

fun match24 :: "string \<Rightarrow> (string \<times> string) option" where
  "match24 [h1, c, m1, m2] =
     (if isDigit h1 \<and> c = CHR '':'' \<and> isDigit m1 \<and> isDigit m2
      then Some ([h1], [m1, m2]) else None)"
| "match24 [h1, h2, c, m1, m2] =
     (if isDigit h1 \<and> isDigit h2 \<and> c = CHR '':'' \<and> isDigit m1 \<and> isDigit m2
      then Some ([h1, h2], [m1, m2]) else None)"
| "match24 _ = None"

definition cleanTimeString :: "string \<Rightarrow> string" where
  "cleanTimeString time = stripSpace (toLowerCase time)"

definition parseTime :: "string \<Rightarrow> TimeValue option" where
  "parseTime timeStr =
     (let cleaned = stripSpace (toLowerCase timeStr) in
      case match12 cleaned of
        Some (g1, g2, period) \<Rightarrow>
          (let hours = parseInt g1; minutes = parseInt g2 in
           if hours < 1 \<or> hours > 12 \<or> minutes < 0 \<or> minutes > 59 then None
           else Some \<lparr>hours =
                        (if period = ''am'' then (if hours = 12 then 0 else hours)
                         else (if hours = 12 then 12 else hours + 12)),
                      minutes = minutes\<rparr>)
      | None \<Rightarrow>
          (case match24 cleaned of
             Some (g1, g2) \<Rightarrow>
               (let hours = parseInt g1; minutes = parseInt g2 in
                if hours < 0 \<or> hours > 23 \<or> minutes < 0 \<or> minutes > 59 then None
                else Some \<lparr>hours = hours, minutes = minutes\<rparr>)
           | None \<Rightarrow> None))"

definition formatTime :: "TimeValue \<Rightarrow> string" where
  "formatTime time =
     (let period = (if hours time \<ge> 12 then ''pm'' else ''am'');
          displayHours =
            (if hours time = 0 then 12
             else if hours time > 12 then hours time - 12 else hours time);
          displayMinutes = padStart 2 (CHR ''0'') (numToString (minutes time))
      in numToString displayHours @ '':'' @ displayMinutes @ period)"

definition timeToMinutes :: "TimeValue \<Rightarrow> int" where
  "timeToMinutes time = hours time * 60 + minutes time"

text \<open>
  The generation loop. The source loop has no bound of its own, so it is a partial
  function: \<open>None\<close> stands for a loop that never leaves.
\<close>

partial_function (option) rangeLoop :: "int \<Rightarrow> int \<Rightarrow> int \<Rightarrow> string list \<Rightarrow> string list option" where
  "rangeLoop currentMinutes endMinutes intervalMinutes times' =
     (if currentMinutes \<le> endMinutes
      then rangeLoop (currentMinutes + intervalMinutes) endMinutes intervalMinutes
             (times' @ [formatTime \<lparr>hours = currentMinutes div 60,
                                   minutes = jsRem currentMinutes 60\<rparr>])
      else Some times')"

declare rangeLoop.simps [code]

definition generateTimeRange :: "string \<Rightarrow> string \<Rightarrow> int \<Rightarrow> string list option" where
  "generateTimeRange startTime endTime intervalMinutes =
     (case parseTime startTime of
        None \<Rightarrow> Some []
      | Some start \<Rightarrow>
          (case parseTime endTime of
             None \<Rightarrow> Some []
           | Some end' \<Rightarrow>
               (let startMinutes = timeToMinutes start;
                    endMinutes = timeToMinutes end'
                in if startMinutes > endMinutes \<or> intervalMinutes \<le> 0 then Some []
                   else rangeLoop startMinutes endMinutes intervalMinutes [])))"

definition isValidTime :: "string \<Rightarrow> bool" where
  "isValidTime timeStr = (parseTime timeStr \<noteq> None)"

definition filterTimesByInput :: "string list \<Rightarrow> string \<Rightarrow> string list" where
  "filterTimesByInput times' input =
     (let cleaned = stripSpace (toLowerCase input) in
      if cleaned = [] then times'
      else filter (\<lambda>time. includesStr (stripSpace (toLowerCase time)) cleaned) times')"

text \<open>
  The generation loop once more, with a budget of iterations: each pass through the loop
  body spends one unit, and \<open>None\<close> says that the budget ran out before the loop left.
\<close>

fun rangeLoopFuel :: "nat \<Rightarrow> int \<Rightarrow> int \<Rightarrow> int \<Rightarrow> string list \<Rightarrow> string list option" where
  "rangeLoopFuel 0 currentMinutes endMinutes intervalMinutes times' =
     (if currentMinutes \<le> endMinutes then None else Some times')"
| "rangeLoopFuel (Suc fuel) currentMinutes endMinutes intervalMinutes times' =
     (if currentMinutes \<le> endMinutes
      then rangeLoopFuel fuel (currentMinutes + intervalMinutes) endMinutes intervalMinutes
             (times' @ [formatTime \<lparr>hours = currentMinutes div 60,
                                   minutes = jsRem currentMinutes 60\<rparr>])
      else Some times')"

section \<open>The specification's notions\<close>

text \<open>
  An hour text of one or two digits and a minute text of exactly two digits:
  the shapes \<^verbatim>\<open>H:MM\<close> and \<^verbatim>\<open>HH:MM\<close> of the specification, without the colon.
\<close>

definition hourMinuteText :: "string \<Rightarrow> string \<Rightarrow> bool" where
  "hourMinuteText ht mt =
     ((length ht = 1 \<or> length ht = 2) \<and> length mt = 2 \<and> list_all isDigit ht \<and> list_all isDigit mt)"

text \<open>The 12-hour grammar: hour text, colon, minute text, then \<^verbatim>\<open>am\<close> or \<^verbatim>\<open>pm\<close>.\<close>

definition twelveHourText :: "string \<Rightarrow> string \<Rightarrow> string \<Rightarrow> string \<Rightarrow> bool" where
  "twelveHourText c ht mt p =
     (hourMinuteText ht mt \<and> (p = ''am'' \<or> p = ''pm'') \<and> c = ht @ '':'' @ mt @ p)"

text \<open>The 24-hour grammar: hour text, colon, minute text, and nothing after.\<close>

definition twentyFourHourText :: "string \<Rightarrow> string \<Rightarrow> string \<Rightarrow> bool" where
  "twentyFourHourText c ht mt = (hourMinuteText ht mt \<and> c = ht @ '':'' @ mt)"

text \<open>
  The hour of the day of a 12-hour reading: 12 am is 0, 12 pm is 12, the hours 1 to 11
  gain 12 in the afternoon and stay in the morning.
\<close>

definition twelveHourValue :: "int \<Rightarrow> string \<Rightarrow> int" where
  "twelveHourValue h p =
     (if h = 12 then (if p = ''am'' then 0 else 12) else (if p = ''pm'' then h + 12 else h))"

text \<open>A number below 100 written with exactly two digits, zero-padded.\<close>

definition twoDigits :: "nat \<Rightarrow> string" where
  "twoDigits n = [digitChar (n div 10), digitChar (n mod 10)]"

text \<open>A number below 100 written without padding: one digit below 10, two from 10 on.\<close>

definition unpadded :: "nat \<Rightarrow> string" where
  "unpadded n = (if n < 10 then [digitChar n] else twoDigits n)"

text \<open>The time of day that lies \<open>m\<close> minutes after midnight.\<close>

definition minuteOfDayTime :: "int \<Rightarrow> TimeValue" where
  "minuteOfDayTime m = \<lparr>hours = m div 60, minutes = m mod 60\<rparr>"

text \<open>
  The minutes of the day met when starting at \<open>s\<close> and advancing by \<open>iv\<close> for as long
  as the current value does not exceed \<open>e\<close>.
\<close>

definition slotMinutes :: "int \<Rightarrow> int \<Rightarrow> int \<Rightarrow> int list" where
  "slotMinutes s e iv = map (\<lambda>k. s + int k * iv) [0 ..< nat ((e - s) div iv + 1)]"

text \<open>
  Lowercasing, letter by letter: the capital letters are the code units 65 to 90 (A to Z),
  192 to 214 and 216 to 222 (the accented Latin-1 capitals); the small letter of a capital
  lies 32 code units above it, and every other character is its own small letter.
\<close>

definition capitalCodes :: "nat list" where
  "capitalCodes = [65 ..< 91] @ [192 ..< 215] @ [216 ..< 223]"

definition smallLetter :: "char \<Rightarrow> char" where
  "smallLetter c = (if code c \<in> set capitalCodes then char_of (code c + 32) else c)"

text \<open>The whitespace characters below 256, by code unit.\<close>

definition whitespaceCodes :: "nat list" where
  "whitespaceCodes = [9, 10, 11, 12, 13, 32, 160]"

text \<open>The lowercased, whitespace-stripped form of a text.\<close>

definition normalForm :: "string \<Rightarrow> string" where
  "normalForm s = filter (\<lambda>c. code c \<notin> set whitespaceCodes) (map smallLetter s)"

text \<open>\<open>sub\<close> is a substring of \<open>s\<close>, at any position.\<close>

definition substringOf :: "string \<Rightarrow> string \<Rightarrow> bool" where
  "substringOf sub s = (\<exists>ps ss. s = ps @ sub @ ss)"

section \<open>Characters and normalisation\<close>

lemma code_char_of: "n < 256 \<Longrightarrow> code (char_of n) = n"
  by (simp add: code_def)

lemma code_inj: "code c = code d \<Longrightarrow> c = d"
  by (simp add: code_def)

lemma code_lowerChar:
  "code (lowerChar c) =
     (if (65 \<le> code c \<and> code c \<le> 90) \<or> (192 \<le> code c \<and> code c \<le> 222 \<and> code c \<noteq> 215)
      then code c + 32 else code c)"
  by (simp add: lowerChar_def code_char_of)

lemma lowerChar_idem: "lowerChar (lowerChar c) = lowerChar c"
  by (rule code_inj) (simp add: code_lowerChar)

lemma isSpace_lowerChar: "isSpace (lowerChar c) = isSpace c"
  by (auto simp add: isSpace_def code_lowerChar)

lemma toLowerCase_stripSpace: "toLowerCase (stripSpace s) = stripSpace (toLowerCase s)"
  by (induction s) (simp_all add: toLowerCase_def stripSpace_def isSpace_lowerChar)

lemma toLowerCase_idem: "toLowerCase (toLowerCase s) = toLowerCase s"
  by (simp add: toLowerCase_def lowerChar_idem)

lemma stripSpace_idem: "stripSpace (stripSpace s) = stripSpace s"
  by (simp add: stripSpace_def)

lemma cleanTimeString_idem: "cleanTimeString (cleanTimeString s) = cleanTimeString s"
  by (simp add: cleanTimeString_def toLowerCase_stripSpace toLowerCase_idem stripSpace_idem)

section \<open>The two regular expressions\<close>

lemma length_one: "length xs = Suc 0 \<longleftrightarrow> (\<exists>a. xs = [a])"
  by (cases xs) auto

lemma length_two: "length xs = 2 \<longleftrightarrow> (\<exists>a b. xs = [a, b])"
  by (cases xs; cases "tl xs") auto

lemma isDigit_not_colon: "isDigit c \<Longrightarrow> c \<noteq> CHR '':''"
  by (auto simp add: isDigit_def code_def)

lemma match12_Some:
  "match12 c = Some (ht, mt, p) \<longleftrightarrow> twelveHourText c ht mt p"
proof
  assume "match12 c = Some (ht, mt, p)"
  then show "twelveHourText c ht mt p"
    by (rule match12.elims)
       (auto simp add: twelveHourText_def hourMinuteText_def split: if_splits)
next
  assume "twelveHourText c ht mt p"
  then show "match12 c = Some (ht, mt, p)"
    by (auto simp add: twelveHourText_def hourMinuteText_def length_one length_two)
qed

lemma match12_None:
  "match12 c = None \<longleftrightarrow> (\<forall>ht mt p. \<not> twelveHourText c ht mt p)"
proof -
  have "match12 c = None \<longleftrightarrow> (\<forall>ht mt p. match12 c \<noteq> Some (ht, mt, p))"
    by (cases "match12 c") auto
  then show ?thesis by (simp add: match12_Some)
qed

lemma match24_Some:
  "match24 c = Some (ht, mt) \<longleftrightarrow> twentyFourHourText c ht mt"
proof
  assume "match24 c = Some (ht, mt)"
  then show "twentyFourHourText c ht mt"
    by (rule match24.elims)
       (auto simp add: twentyFourHourText_def hourMinuteText_def split: if_splits)
next
  assume "twentyFourHourText c ht mt"
  then show "match24 c = Some (ht, mt)"
    by (auto simp add: twentyFourHourText_def hourMinuteText_def length_one length_two)
qed

lemma match24_None:
  "match24 c = None \<longleftrightarrow> (\<forall>ht mt. \<not> twentyFourHourText c ht mt)"
proof -
  have "match24 c = None \<longleftrightarrow> (\<forall>ht mt. match24 c \<noteq> Some (ht, mt))"
    by (cases "match24 c") auto
  then show ?thesis by (simp add: match24_Some)
qed

lemma twelve_not_twentyFour:
  "twelveHourText c ht mt p \<Longrightarrow> \<not> twentyFourHourText c ht' mt'"
  by (auto simp add: twelveHourText_def twentyFourHourText_def hourMinuteText_def length_one length_two isDigit_not_colon)

lemma digitVal_nonneg: "0 \<le> digitVal c"
  by (simp add: digitVal_def)

lemma parseInt_one: "parseInt [a] = digitVal a"
  by (simp add: parseInt_def)

lemma parseInt_two: "parseInt [a, b] = 10 * digitVal a + digitVal b"
  by (simp add: parseInt_def)

lemma parseInt_nonneg: "hourMinuteText ht mt \<Longrightarrow> 0 \<le> parseInt ht \<and> 0 \<le> parseInt mt"
  using digitVal_nonneg
  by (auto simp add: hourMinuteText_def length_one length_two parseInt_one parseInt_two)

section \<open>The two grammars of parseTime\<close>

lemma parseTime_twelve:
  assumes "twelveHourText (cleanTimeString s) ht mt p"
  shows "parseTime s =
           (if 1 \<le> parseInt ht \<and> parseInt ht \<le> 12 \<and> 0 \<le> parseInt mt \<and> parseInt mt \<le> 59
            then Some \<lparr>hours = twelveHourValue (parseInt ht) p, minutes = parseInt mt\<rparr>
            else None)"
proof -
  from assms have m: "match12 (stripSpace (toLowerCase s)) = Some (ht, mt, p)"
    by (simp add: match12_Some cleanTimeString_def)
  from assms have p: "p = ''am'' \<or> p = ''pm''"
    by (simp add: twelveHourText_def)
  from p show ?thesis
    by (auto simp add: parseTime_def m twelveHourValue_def Let_def)
qed

lemma parseTime_twentyFour:
  assumes "twentyFourHourText (cleanTimeString s) ht mt"
  shows "parseTime s =
           (if 0 \<le> parseInt ht \<and> parseInt ht \<le> 23 \<and> 0 \<le> parseInt mt \<and> parseInt mt \<le> 59
            then Some \<lparr>hours = parseInt ht, minutes = parseInt mt\<rparr>
            else None)"
proof -
  from assms have m: "match24 (stripSpace (toLowerCase s)) = Some (ht, mt)"
    by (simp add: match24_Some cleanTimeString_def)
  from assms have "\<forall>ht' mt' p. \<not> twelveHourText (cleanTimeString s) ht' mt' p"
    using twelve_not_twentyFour by blast
  then have n: "match12 (stripSpace (toLowerCase s)) = None"
    by (simp add: match12_None cleanTimeString_def)
  show ?thesis
    by (auto simp add: parseTime_def m n Let_def)
qed

lemma parseTime_neither:
  assumes "\<forall>ht mt p. \<not> twelveHourText (cleanTimeString s) ht mt p"
    and "\<forall>ht mt. \<not> twentyFourHourText (cleanTimeString s) ht mt"
  shows "parseTime s = None"
proof -
  from assms(1) have n: "match12 (stripSpace (toLowerCase s)) = None"
    by (simp add: match12_None cleanTimeString_def)
  from assms(2) have m: "match24 (stripSpace (toLowerCase s)) = None"
    by (simp add: match24_None cleanTimeString_def)
  show ?thesis
    by (simp add: parseTime_def m n)
qed

text \<open>
  C1: \<open>parseTime\<close> lowercases its input and strips every whitespace character, and
  then recognises exactly two grammars. When the normalised string is an hour text of one
  or two digits, a colon, a minute text of two digits and \<open>am\<close> or \<open>pm\<close>, the result is
  decided by the 12-hour rule: a time when the hour is in [1,12] and the minute in [0,59],
  with 12 am read as hour 0, 12 pm as 12, 1 to 11 pm as hour + 12 and 1 to 11 am unchanged,
  and none otherwise. When it is an hour text, a colon and a minute text with nothing
  after, the result is that hour and minute when the hour is in [0,23] and the minute in
  [0,59], and none otherwise. When it has neither shape the result is none.
\<close>

theorem parseTime_grammars:
  "(\<forall>ht mt p. twelveHourText (cleanTimeString s) ht mt p \<longrightarrow>
      parseTime s =
        (if 1 \<le> parseInt ht \<and> parseInt ht \<le> 12 \<and> 0 \<le> parseInt mt \<and> parseInt mt \<le> 59
         then Some \<lparr>hours = twelveHourValue (parseInt ht) p, minutes = parseInt mt\<rparr>
         else None))
   \<and> (\<forall>ht mt. twentyFourHourText (cleanTimeString s) ht mt \<longrightarrow>
      parseTime s =
        (if 0 \<le> parseInt ht \<and> parseInt ht \<le> 23 \<and> 0 \<le> parseInt mt \<and> parseInt mt \<le> 59
         then Some \<lparr>hours = parseInt ht, minutes = parseInt mt\<rparr>
         else None))
   \<and> ((\<forall>ht mt p. \<not> twelveHourText (cleanTimeString s) ht mt p)
        \<and> (\<forall>ht mt. \<not> twentyFourHourText (cleanTimeString s) ht mt) \<longrightarrow>
      parseTime s = None)"
  using parseTime_twelve [of s] parseTime_twentyFour [of s] parseTime_neither [of s]
  by blast

theorem parseTime_grammars_witness:
  "twelveHourText (cleanTimeString ''2 : 30 PM'') ''2'' ''30'' ''pm''
   \<and> parseTime ''2 : 30 PM'' = Some \<lparr>hours = 14, minutes = 30\<rparr>
   \<and> twentyFourHourText (cleanTimeString ''09:05'') ''09'' ''05''
   \<and> parseTime ''09:05'' = Some \<lparr>hours = 9, minutes = 5\<rparr>
   \<and> (\<forall>ht mt p. \<not> twelveHourText (cleanTimeString ''noon'') ht mt p)
   \<and> (\<forall>ht mt. \<not> twentyFourHourText (cleanTimeString ''noon'') ht mt)
   \<and> parseTime ''noon'' = None"
proof -
  have a: "twelveHourText (cleanTimeString ''2 : 30 PM'') ''2'' ''30'' ''pm''"
    by code_simp
  have av: "(if 1 \<le> parseInt ''2'' \<and> parseInt ''2'' \<le> 12 \<and> 0 \<le> parseInt ''30'' \<and> parseInt ''30'' \<le> 59
         then Some \<lparr>hours = twelveHourValue (parseInt ''2'') ''pm'', minutes = parseInt ''30''\<rparr>
         else None) = Some \<lparr>hours = 14, minutes = 30\<rparr>"
    by code_simp
  have b: "twentyFourHourText (cleanTimeString ''09:05'') ''09'' ''05''"
    by code_simp
  have bv: "(if 0 \<le> parseInt ''09'' \<and> parseInt ''09'' \<le> 23 \<and> 0 \<le> parseInt ''05'' \<and> parseInt ''05'' \<le> 59
         then Some \<lparr>hours = parseInt ''09'', minutes = parseInt ''05''\<rparr>
         else None) = Some \<lparr>hours = 9, minutes = 5\<rparr>"
    by code_simp
  have c: "cleanTimeString ''noon'' = ''noon''"
    by code_simp
  have n12: "\<forall>ht mt p. \<not> twelveHourText (cleanTimeString ''noon'') ht mt p"
    unfolding c by (simp add: match12_None [symmetric])
  have n24: "\<forall>ht mt. \<not> twentyFourHourText (cleanTimeString ''noon'') ht mt"
    unfolding c by (simp add: match24_None [symmetric] isDigit_def code_def)
  from parseTime_grammars [of "''2 : 30 PM''"] a av
  have r1: "parseTime ''2 : 30 PM'' = Some \<lparr>hours = 14, minutes = 30\<rparr>"
    by metis
  from parseTime_grammars [of "''09:05''"] b bv
  have r2: "parseTime ''09:05'' = Some \<lparr>hours = 9, minutes = 5\<rparr>"
    by metis
  from parseTime_grammars [of "''noon''"] n12 n24
  have r3: "parseTime ''noon'' = None"
    by blast
  from a b n12 n24 r1 r2 r3 show ?thesis by blast
qed

section \<open>The absent value\<close>

text \<open>
  C8: \<open>parseTime\<close> is a total function into an optional time, so none is its only error
  signal. It returns none when the normalised input has neither the 12-hour nor the
  24-hour shape, when it has the 12-hour shape with an hour outside [1,12] or a minute
  outside [0,59], and when it has the 24-hour shape with an hour outside [0,23] or a
  minute outside [0,59]; and it returns none in these cases only. In particular
  \<open>25:00\<close> and \<open>13:00am\<close> parse to none.
\<close>

theorem parseTime_none:
  "((\<forall>ht mt p. \<not> twelveHourText (cleanTimeString s) ht mt p)
      \<and> (\<forall>ht mt. \<not> twentyFourHourText (cleanTimeString s) ht mt) \<longrightarrow> parseTime s = None)
   \<and> (\<forall>ht mt p. twelveHourText (cleanTimeString s) ht mt p
         \<and> \<not> (1 \<le> parseInt ht \<and> parseInt ht \<le> 12 \<and> 0 \<le> parseInt mt \<and> parseInt mt \<le> 59)
       \<longrightarrow> parseTime s = None)
   \<and> (\<forall>ht mt. twentyFourHourText (cleanTimeString s) ht mt
         \<and> \<not> (0 \<le> parseInt ht \<and> parseInt ht \<le> 23 \<and> 0 \<le> parseInt mt \<and> parseInt mt \<le> 59)
       \<longrightarrow> parseTime s = None)
   \<and> (parseTime s = None \<longrightarrow>
         ((\<forall>ht mt p. \<not> twelveHourText (cleanTimeString s) ht mt p)
            \<and> (\<forall>ht mt. \<not> twentyFourHourText (cleanTimeString s) ht mt))
         \<or> (\<exists>ht mt p. twelveHourText (cleanTimeString s) ht mt p
               \<and> \<not> (1 \<le> parseInt ht \<and> parseInt ht \<le> 12 \<and> 0 \<le> parseInt mt \<and> parseInt mt \<le> 59))
         \<or> (\<exists>ht mt. twentyFourHourText (cleanTimeString s) ht mt
               \<and> \<not> (0 \<le> parseInt ht \<and> parseInt ht \<le> 23 \<and> 0 \<le> parseInt mt \<and> parseInt mt \<le> 59)))
   \<and> parseTime ''25:00'' = None \<and> parseTime ''13:00am'' = None"
proof -
  have n: "(\<forall>ht mt p. \<not> twelveHourText (cleanTimeString s) ht mt p)
      \<and> (\<forall>ht mt. \<not> twentyFourHourText (cleanTimeString s) ht mt) \<longrightarrow> parseTime s = None"
    using parseTime_neither [of s] by blast
  have a: "\<forall>ht mt p. twelveHourText (cleanTimeString s) ht mt p
         \<and> \<not> (1 \<le> parseInt ht \<and> parseInt ht \<le> 12 \<and> 0 \<le> parseInt mt \<and> parseInt mt \<le> 59)
       \<longrightarrow> parseTime s = None"
    by (auto simp add: parseTime_twelve)
  have b: "\<forall>ht mt. twentyFourHourText (cleanTimeString s) ht mt
         \<and> \<not> (0 \<le> parseInt ht \<and> parseInt ht \<le> 23 \<and> 0 \<le> parseInt mt \<and> parseInt mt \<le> 59)
       \<longrightarrow> parseTime s = None"
    by (auto simp add: parseTime_twentyFour)
  have c: "parseTime s = None \<longrightarrow>
         ((\<forall>ht mt p. \<not> twelveHourText (cleanTimeString s) ht mt p)
            \<and> (\<forall>ht mt. \<not> twentyFourHourText (cleanTimeString s) ht mt))
         \<or> (\<exists>ht mt p. twelveHourText (cleanTimeString s) ht mt p
               \<and> \<not> (1 \<le> parseInt ht \<and> parseInt ht \<le> 12 \<and> 0 \<le> parseInt mt \<and> parseInt mt \<le> 59))
         \<or> (\<exists>ht mt. twentyFourHourText (cleanTimeString s) ht mt
               \<and> \<not> (0 \<le> parseInt ht \<and> parseInt ht \<le> 23 \<and> 0 \<le> parseInt mt \<and> parseInt mt \<le> 59))"
  proof (intro impI)
    assume none: "parseTime s = None"
    show "((\<forall>ht mt p. \<not> twelveHourText (cleanTimeString s) ht mt p)
            \<and> (\<forall>ht mt. \<not> twentyFourHourText (cleanTimeString s) ht mt))
         \<or> (\<exists>ht mt p. twelveHourText (cleanTimeString s) ht mt p
               \<and> \<not> (1 \<le> parseInt ht \<and> parseInt ht \<le> 12 \<and> 0 \<le> parseInt mt \<and> parseInt mt \<le> 59))
         \<or> (\<exists>ht mt. twentyFourHourText (cleanTimeString s) ht mt
               \<and> \<not> (0 \<le> parseInt ht \<and> parseInt ht \<le> 23 \<and> 0 \<le> parseInt mt \<and> parseInt mt \<le> 59))"
    proof (cases "\<exists>ht mt p. twelveHourText (cleanTimeString s) ht mt p")
      case True
      then obtain ht mt p where t: "twelveHourText (cleanTimeString s) ht mt p" by blast
      with none parseTime_twelve [OF t]
      have "\<not> (1 \<le> parseInt ht \<and> parseInt ht \<le> 12 \<and> 0 \<le> parseInt mt \<and> parseInt mt \<le> 59)"
        by (auto split: if_splits)
      with t show ?thesis by blast
    next
      case no12: False
      show ?thesis
      proof (cases "\<exists>ht mt. twentyFourHourText (cleanTimeString s) ht mt")
        case True
        then obtain ht mt where t: "twentyFourHourText (cleanTimeString s) ht mt" by blast
        with none parseTime_twentyFour [OF t]
        have "\<not> (0 \<le> parseInt ht \<and> parseInt ht \<le> 23 \<and> 0 \<le> parseInt mt \<and> parseInt mt \<le> 59)"
          by (auto split: if_splits)
        with t show ?thesis by blast
      next
        case False
        with no12 show ?thesis by blast
      qed
    qed
  qed
  have e1: "parseTime ''25:00'' = None" by code_simp
  have e2: "parseTime ''13:00am'' = None" by code_simp
  from n a b c e1 e2 show ?thesis by blast
qed

theorem parseTime_none_witness:
  "twelveHourText (cleanTimeString ''7:75 PM'') ''7'' ''75'' ''pm''
   \<and> \<not> parseInt ''75'' \<le> 59 \<and> parseTime ''7:75 PM'' = None
   \<and> twentyFourHourText (cleanTimeString ''24:00'') ''24'' ''00''
   \<and> \<not> parseInt ''24'' \<le> 23 \<and> parseTime ''24:00'' = None
   \<and> (\<forall>ht mt p. \<not> twelveHourText (cleanTimeString ''2:3pm'') ht mt p)
   \<and> (\<forall>ht mt. \<not> twentyFourHourText (cleanTimeString ''2:3pm'') ht mt)
   \<and> parseTime ''2:3pm'' = None"
proof -
  have a: "twelveHourText (cleanTimeString ''7:75 PM'') ''7'' ''75'' ''pm''"
    by code_simp
  have av: "\<not> parseInt ''75'' \<le> 59"
    by code_simp
  have b: "twentyFourHourText (cleanTimeString ''24:00'') ''24'' ''00''"
    by code_simp
  have bv: "\<not> parseInt ''24'' \<le> 23"
    by code_simp
  have c: "cleanTimeString ''2:3pm'' = ''2:3pm''"
    by code_simp
  have n12: "\<forall>ht mt p. \<not> twelveHourText (cleanTimeString ''2:3pm'') ht mt p"
    unfolding c by (simp add: match12_None [symmetric])
  have n24: "\<forall>ht mt. \<not> twentyFourHourText (cleanTimeString ''2:3pm'') ht mt"
    unfolding c by (simp add: match24_None [symmetric] isDigit_def code_def)
  from parseTime_none [of "''7:75 PM''"] a av
  have r1: "parseTime ''7:75 PM'' = None"
    by blast
  from parseTime_none [of "''24:00''"] b bv
  have r2: "parseTime ''24:00'' = None"
    by blast
  from parseTime_none [of "''2:3pm''"] n12 n24
  have r3: "parseTime ''2:3pm'' = None"
    by blast
  from a av b bv n12 n24 r1 r2 r3 show ?thesis by blast
qed

section \<open>Printing numbers and times\<close>

lemma code_digitChar: "d < 10 \<Longrightarrow> code (digitChar d) = 48 + d"
  by (simp add: digitChar_def code_char_of)

lemma isDigit_digitChar: "d < 10 \<Longrightarrow> isDigit (digitChar d)"
  by (simp add: isDigit_def code_digitChar)

lemma digitVal_digitChar: "d < 10 \<Longrightarrow> digitVal (digitChar d) = int d"
  by (simp add: digitVal_def code_digitChar)

lemma natToString_small: "n < 10 \<Longrightarrow> natToString n = [digitChar n]"
  by (simp add: natToString.simps)

lemma natToString_two:
  "10 \<le> n \<Longrightarrow> n < 100 \<Longrightarrow> natToString n = [digitChar (n div 10), digitChar (n mod 10)]"
  by (subst natToString.simps) (simp add: natToString_small)

lemma numToString_small: "0 \<le> i \<Longrightarrow> i < 10 \<Longrightarrow> numToString i = [digitChar (nat i)]"
  by (simp add: numToString_def natToString_small)

lemma numToString_two:
  "10 \<le> i \<Longrightarrow> i < 100 \<Longrightarrow> numToString i = [digitChar (nat i div 10), digitChar (nat i mod 10)]"
  by (simp add: numToString_def natToString_two)

lemma padStart_minute:
  assumes "0 \<le> m" "m \<le> 59"
  shows "padStart 2 (CHR ''0'') (numToString m) = [digitChar (nat m div 10), digitChar (nat m mod 10)]"
proof (cases "m < 10")
  case True
  with assms have "nat m div 10 = 0" "nat m mod 10 = nat m" by simp_all
  moreover have "digitChar 0 = CHR ''0''" by (rule code_inj) (simp add: digitChar_def code_def)
  ultimately show ?thesis using True assms
    by (simp add: padStart_def numToString_small)
next
  case False
  with assms show ?thesis
    by (simp add: padStart_def numToString_two)
qed

lemma formatTime_shape:
  fixes v :: TimeValue
  assumes "0 \<le> hours v" "hours v \<le> 23" "0 \<le> minutes v" "minutes v \<le> 59"
  shows "formatTime v =
           numToString (if hours v = 0 \<or> hours v = 12 then 12 else hours v mod 12)
           @ '':'' @ [digitChar (nat (minutes v) div 10), digitChar (nat (minutes v) mod 10)]
           @ (if hours v < 12 then ''am'' else ''pm'')"
proof -
  have h: "(if hours v = 0 then 12 else if hours v > 12 then hours v - 12 else hours v)
           = (if hours v = 0 \<or> hours v = 12 then 12 else hours v mod 12)"
    using assms(1,2) by presburger
  show ?thesis
    unfolding formatTime_def Let_def h padStart_minute [OF assms(3,4)]
    by auto
qed

lemma numToString_unpadded: "0 \<le> i \<Longrightarrow> i < 100 \<Longrightarrow> numToString i = unpadded (nat i)"
  by (cases "i < 10") (simp_all add: unpadded_def twoDigits_def numToString_small numToString_two)

lemma formatTime_printed:
  fixes v :: TimeValue
  assumes "0 \<le> hours v" "hours v \<le> 23" "0 \<le> minutes v" "minutes v \<le> 59"
  shows "formatTime v =
           unpadded (nat (if hours v = 0 \<or> hours v = 12 then 12 else hours v mod 12))
           @ '':'' @ twoDigits (nat (minutes v))
           @ (if hours v < 12 then ''am'' else ''pm'')"
proof -
  have "0 \<le> (if hours v = 0 \<or> hours v = 12 then 12 else hours v mod 12)"
    and "(if hours v = 0 \<or> hours v = 12 then 12 else hours v mod 12) < 100"
    using assms(1,2) by auto
  then have "numToString (if hours v = 0 \<or> hours v = 12 then 12 else hours v mod 12)
             = unpadded (nat (if hours v = 0 \<or> hours v = 12 then 12 else hours v mod 12))"
    by (rule numToString_unpadded)
  with formatTime_shape [OF assms] show ?thesis
    by (simp add: twoDigits_def)
qed

text \<open>
  C4: for every time with hour in [0,23] and minute in [0,59], \<open>formatTime\<close> prints the
  12-hour form: the displayed hour, which is 12 for the hours 0 and 12 and the hour modulo
  12 otherwise, written without padding; a colon; the minute written with exactly two
  digits, zero-padded; and \<open>am\<close> when the hour is below 12, \<open>pm\<close> otherwise.
\<close>

theorem formatTime_twelve_hour:
  fixes v :: TimeValue
  assumes "0 \<le> hours v" "hours v \<le> 23" "0 \<le> minutes v" "minutes v \<le> 59"
  shows "formatTime v =
           unpadded (nat (if hours v = 0 \<or> hours v = 12 then 12 else hours v mod 12))
           @ '':'' @ twoDigits (nat (minutes v))
           @ (if hours v < 12 then ''am'' else ''pm'')"
  using formatTime_printed [OF assms] .

theorem formatTime_twelve_hour_witness:
  "(0::int) \<le> 9 \<and> (9::int) \<le> 23 \<and> (0::int) \<le> 5 \<and> (5::int) \<le> 59
   \<and> formatTime \<lparr>hours = 9, minutes = 5\<rparr> = ''9:05am''
   \<and> formatTime \<lparr>hours = 0, minutes = 0\<rparr> = ''12:00am''
   \<and> formatTime \<lparr>hours = 23, minutes = 59\<rparr> = ''11:59pm''"
proof -
  have a: "unpadded (nat (if (9::int) = 0 \<or> (9::int) = 12 then 12 else 9 mod 12))
           @ '':'' @ twoDigits (nat 5) @ (if (9::int) < 12 then ''am'' else ''pm'') = ''9:05am''"
    by code_simp
  have b: "unpadded (nat (if (0::int) = 0 \<or> (0::int) = 12 then 12 else 0 mod 12))
           @ '':'' @ twoDigits (nat 0) @ (if (0::int) < 12 then ''am'' else ''pm'') = ''12:00am''"
    by code_simp
  have c: "unpadded (nat (if (23::int) = 0 \<or> (23::int) = 12 then 12 else 23 mod 12))
           @ '':'' @ twoDigits (nat 59) @ (if (23::int) < 12 then ''am'' else ''pm'') = ''11:59pm''"
    by code_simp
  from formatTime_twelve_hour [of "\<lparr>hours = 9, minutes = 5\<rparr>"] a
  have r1: "formatTime \<lparr>hours = 9, minutes = 5\<rparr> = ''9:05am''" by simp
  from formatTime_twelve_hour [of "\<lparr>hours = 0, minutes = 0\<rparr>"] b
  have r2: "formatTime \<lparr>hours = 0, minutes = 0\<rparr> = ''12:00am''" by simp
  from formatTime_twelve_hour [of "\<lparr>hours = 23, minutes = 59\<rparr>"] c
  have r3: "formatTime \<lparr>hours = 23, minutes = 59\<rparr> = ''11:59pm''" by simp
  from r1 r2 r3 show ?thesis by simp
qed

section \<open>Printing and parsing back\<close>

lemma cleanTimeString_fixed:
  "\<forall>c \<in> set s. \<not> isSpace c \<and> lowerChar c = c \<Longrightarrow> cleanTimeString s = s"
  by (induction s) (simp_all add: cleanTimeString_def toLowerCase_def stripSpace_def)

lemma digitChar_plain: "d < 10 \<Longrightarrow> \<not> isSpace (digitChar d) \<and> lowerChar (digitChar d) = digitChar d"
  by (simp add: isSpace_def lowerChar_def code_digitChar)

lemma letters_plain:
  "\<not> isSpace (CHR '':'') \<and> lowerChar (CHR '':'') = CHR '':''"
  "\<not> isSpace (CHR ''a'') \<and> lowerChar (CHR ''a'') = CHR ''a''"
  "\<not> isSpace (CHR ''p'') \<and> lowerChar (CHR ''p'') = CHR ''p''"
  "\<not> isSpace (CHR ''m'') \<and> lowerChar (CHR ''m'') = CHR ''m''"
  by (simp_all add: isSpace_def lowerChar_def code_def)

lemma parseInt_unpadded: "n < 100 \<Longrightarrow> parseInt (unpadded n) = int n"
proof -
  assume n: "n < 100"
  then have "n div 10 < 10" "n mod 10 < 10" by simp_all
  moreover have "10 * int (n div 10) + int (n mod 10) = int n"
    by presburger
  ultimately show ?thesis
    by (simp add: unpadded_def twoDigits_def parseInt_one parseInt_two digitVal_digitChar)
qed

lemma parseInt_twoDigits: "n < 100 \<Longrightarrow> parseInt (twoDigits n) = int n"
proof -
  assume n: "n < 100"
  then have "n div 10 < 10" "n mod 10 < 10" by simp_all
  moreover have "10 * int (n div 10) + int (n mod 10) = int n"
    by presburger
  ultimately show ?thesis
    by (simp add: twoDigits_def parseInt_two digitVal_digitChar)
qed

lemma hourMinuteText_printed:
  assumes "h < 100" "m < 100"
  shows "hourMinuteText (unpadded h) (twoDigits m)"
proof -
  from assms have "h div 10 < 10" "h mod 10 < 10" "m div 10 < 10" "m mod 10 < 10" by simp_all
  then show ?thesis
    by (simp add: hourMinuteText_def unpadded_def twoDigits_def isDigit_digitChar)
qed

lemma printed_plain:
  assumes "h < 100" "m < 100" "p = ''am'' \<or> p = ''pm''"
  shows "cleanTimeString (unpadded h @ '':'' @ twoDigits m @ p) = unpadded h @ '':'' @ twoDigits m @ p"
proof (rule cleanTimeString_fixed)
  from assms have d: "h div 10 < 10" "h mod 10 < 10" "m div 10 < 10" "m mod 10 < 10" by simp_all
  show "\<forall>c\<in>set (unpadded h @ '':'' @ twoDigits m @ p). \<not> isSpace c \<and> lowerChar c = c"
    using assms(3) d letters_plain
    by (auto simp add: unpadded_def twoDigits_def digitChar_plain)
qed

lemma parse_printed:
  fixes v :: TimeValue
  assumes "0 \<le> hours v" "hours v \<le> 23" "0 \<le> minutes v" "minutes v \<le> 59"
  shows "parseTime (formatTime v) = Some v"
proof -
  define d where "d = (if hours v = 0 \<or> hours v = 12 then 12 else hours v mod 12)"
  define p where "p = (if hours v < 12 then ''am'' else ''pm'')"
  have d: "1 \<le> d" "d \<le> 12"
    using assms(1,2) unfolding d_def by presburger+
  have p: "p = ''am'' \<or> p = ''pm''"
    by (simp add: p_def)
  have m: "nat (minutes v) < 100" "nat d < 100"
    using assms(3,4) d by simp_all
  have f: "formatTime v = unpadded (nat d) @ '':'' @ twoDigits (nat (minutes v)) @ p"
    using formatTime_printed [OF assms] by (simp add: d_def p_def)
  have t: "twelveHourText (cleanTimeString (formatTime v)) (unpadded (nat d)) (twoDigits (nat (minutes v))) p"
    unfolding f printed_plain [OF m(2) m(1) p]
    using p hourMinuteText_printed [OF m(2) m(1)]
    by (simp add: twelveHourText_def)
  have hv: "twelveHourValue d p = hours v"
    using assms(1,2) unfolding d_def p_def twelveHourValue_def by (simp; presburger)
  have "parseTime (formatTime v) = Some \<lparr>hours = twelveHourValue d p, minutes = minutes v\<rparr>"
    using parseTime_twelve [OF t] d assms(3,4) m
    by (simp add: parseInt_unpadded parseInt_twoDigits)
  then show ?thesis by (simp add: hv)
qed

text \<open>
  C3: for every time \<open>v\<close> with hour in [0,23] and minute in [0,59], parsing the text that
  \<open>formatTime\<close> prints for \<open>v\<close> succeeds and gives \<open>v\<close> back.
\<close>

theorem parseTime_formatTime:
  fixes v :: TimeValue
  assumes "0 \<le> hours v" "hours v \<le> 23" "0 \<le> minutes v" "minutes v \<le> 59"
  shows "parseTime (formatTime v) = Some v"
  using parse_printed [OF assms] .

theorem parseTime_formatTime_witness:
  "(0::int) \<le> 14 \<and> (14::int) \<le> 23 \<and> (0::int) \<le> 30 \<and> (30::int) \<le> 59
   \<and> parseTime (formatTime \<lparr>hours = 14, minutes = 30\<rparr>) = Some \<lparr>hours = 14, minutes = 30\<rparr>"
  using parseTime_formatTime [of "\<lparr>hours = 14, minutes = 30\<rparr>"] by simp

section \<open>The generation loop\<close>

lemma slotMinutes_empty: "0 < iv \<Longrightarrow> e < s \<Longrightarrow> slotMinutes s e iv = []"
proof -
  assume iv: "0 < iv" and "e < s"
  then have "e - s < 0" by simp
  with iv have "(e - s) div iv < 0"
    by (simp add: pos_imp_zdiv_neg_iff)
  then show ?thesis by (simp add: slotMinutes_def)
qed

lemma slotMinutes_step:
  assumes iv: "0 < iv" and le: "s \<le> e"
  shows "slotMinutes s e iv = s # slotMinutes (s + iv) e iv"
proof -
  have d: "(e - (s + iv)) div iv = (e - s) div iv - 1"
  proof -
    have "e - (s + iv) = (e - s) + (- 1) * iv" by simp
    then have "(e - (s + iv)) div iv = (e - s) div iv + (- 1)"
      using iv by (simp only: div_mult_self1)
    then show ?thesis by simp
  qed
  from iv le have nn: "0 \<le> (e - s) div iv"
    by (simp add: pos_imp_zdiv_nonneg_iff)
  then have n: "nat ((e - s) div iv + 1) = Suc (nat ((e - (s + iv)) div iv + 1))"
    by (simp add: d)
  have "map (\<lambda>k. s + int k * iv) [0 ..< Suc (nat ((e - (s + iv)) div iv + 1))]
        = s # map (\<lambda>k. (s + iv) + int k * iv) [0 ..< nat ((e - (s + iv)) div iv + 1)]"
    by (simp add: upt_conv_Cons map_Suc_upt [symmetric] algebra_simps del: upt_Suc)
  then show ?thesis
    by (simp only: slotMinutes_def n)
qed

lemma rangeLoop_slots:
  assumes iv: "0 < iv"
  shows "rangeLoop s e iv acc =
           Some (acc @ map (\<lambda>m. formatTime \<lparr>hours = m div 60, minutes = jsRem m 60\<rparr>)
                          (slotMinutes s e iv))"
proof (induction "nat (e - s + 1)" arbitrary: s acc rule: less_induct)
  case less
  show ?case
  proof (cases "s \<le> e")
    case False
    then show ?thesis
      using iv by (subst rangeLoop.simps) (simp add: slotMinutes_empty)
  next
    case True
    with iv have "nat (e - (s + iv) + 1) < nat (e - s + 1)" by simp
    from less [OF this] True show ?thesis
      using iv by (subst rangeLoop.simps) (simp add: slotMinutes_step)
  qed
qed

lemma rangeLoopFuel_slots:
  assumes iv: "0 < iv"
  shows "length (slotMinutes s e iv) \<le> n \<Longrightarrow>
         rangeLoopFuel n s e iv acc =
           Some (acc @ map (\<lambda>m. formatTime \<lparr>hours = m div 60, minutes = jsRem m 60\<rparr>)
                          (slotMinutes s e iv))"
proof (induction n arbitrary: s acc)
  case 0
  then have "\<not> s \<le> e"
    using iv slotMinutes_step [of iv s e] by auto
  then show ?case using iv by (simp add: slotMinutes_empty)
next
  case (Suc n)
  show ?case
  proof (cases "s \<le> e")
    case False
    then show ?thesis using iv by (simp add: slotMinutes_empty)
  next
    case True
    with Suc.prems iv have "length (slotMinutes (s + iv) e iv) \<le> n"
      by (simp add: slotMinutes_step)
    from Suc.IH [OF this] True show ?thesis
      using iv by (simp add: slotMinutes_step)
  qed
qed

lemma rangeLoopFuel_short:
  assumes iv: "0 < iv"
  shows "n < length (slotMinutes s e iv) \<Longrightarrow> rangeLoopFuel n s e iv acc = None"
proof (induction n arbitrary: s acc)
  case 0
  then have "s \<le> e"
    using iv slotMinutes_empty [of iv e s] by (cases "s \<le> e") auto
  then show ?case by simp
next
  case (Suc n)
  then have le: "s \<le> e"
    using iv slotMinutes_empty [of iv e s] by (cases "s \<le> e") auto
  with Suc.prems iv have "n < length (slotMinutes (s + iv) e iv)"
    by (simp add: slotMinutes_step)
  from Suc.IH [OF this] le show ?case by simp
qed

lemma length_slotMinutes: "length (slotMinutes s e iv) = nat ((e - s) div iv + 1)"
  by (simp add: slotMinutes_def)

lemma nth_slotMinutes: "i < length (slotMinutes s e iv) \<Longrightarrow> slotMinutes s e iv ! i = s + int i * iv"
  by (simp add: slotMinutes_def)

lemma slotMinutes_le:
  assumes iv: "0 < iv" and i: "i < length (slotMinutes s e iv)"
  shows "s + int i * iv \<le> e"
proof -
  from i have "int i + 1 \<le> (e - s) div iv + 1"
    by (simp add: length_slotMinutes)
  then have "int i \<le> (e - s) div iv" by simp
  then have "int i * iv \<le> ((e - s) div iv) * iv"
    using iv by (simp add: mult_right_mono)
  also have "\<dots> \<le> e - s"
    using iv by (metis mult.commute div_mult_mod_eq pos_mod_sign add.commute le_add_same_cancel2 )
  finally show ?thesis by simp
qed

section \<open>Ranges of times\<close>

lemma jsRem_nonneg: "0 \<le> m \<Longrightarrow> jsRem m 60 = m mod 60"
  by (cases "m = 0") (simp_all add: jsRem_def)

lemma parseTime_bounds:
  assumes "parseTime s = Some v"
  shows "0 \<le> hours v \<and> hours v \<le> 23 \<and> 0 \<le> minutes v \<and> minutes v \<le> 59"
proof (cases "\<exists>ht mt p. twelveHourText (cleanTimeString s) ht mt p")
  case True
  then obtain ht mt p where t: "twelveHourText (cleanTimeString s) ht mt p" by blast
  then have "p = ''am'' \<or> p = ''pm''" by (simp add: twelveHourText_def)
  with assms parseTime_twelve [OF t] show ?thesis
    by (auto simp add: twelveHourValue_def split: if_splits)
next
  case no12: False
  show ?thesis
  proof (cases "\<exists>ht mt. twentyFourHourText (cleanTimeString s) ht mt")
    case True
    then obtain ht mt where t: "twentyFourHourText (cleanTimeString s) ht mt" by blast
    with assms parseTime_twentyFour [OF t] show ?thesis
      by (auto split: if_splits)
  next
    case False
    with no12 assms parseTime_neither [of s] show ?thesis by simp
  qed
qed

lemma timeToMinutes_bounds:
  assumes "parseTime s = Some v"
  shows "0 \<le> timeToMinutes v \<and> timeToMinutes v \<le> 1439"
  using parseTime_bounds [OF assms] by (simp add: timeToMinutes_def)

lemma minuteOfDayTime_timeToMinutes:
  fixes v :: TimeValue
  assumes "0 \<le> minutes v" "minutes v \<le> 59"
  shows "minuteOfDayTime (timeToMinutes v) = v"
  using assms by (simp add: minuteOfDayTime_def timeToMinutes_def)

lemma timeToMinutes_minuteOfDayTime: "timeToMinutes (minuteOfDayTime m) = m"
  by (simp add: minuteOfDayTime_def timeToMinutes_def)

lemma slotMinutes_ge:
  assumes "0 < iv" "m \<in> set (slotMinutes s e iv)"
  shows "s \<le> m"
  using assms by (auto simp add: slotMinutes_def)

lemma generateTimeRange_valid:
  assumes a: "parseTime s = Some a" and b: "parseTime e = Some b"
    and le: "timeToMinutes a \<le> timeToMinutes b" and iv: "0 < iv"
  shows "generateTimeRange s e iv =
           Some (map (\<lambda>m. formatTime (minuteOfDayTime m))
                     (slotMinutes (timeToMinutes a) (timeToMinutes b) iv))"
proof -
  have "map (\<lambda>m. formatTime \<lparr>hours = m div 60, minutes = jsRem m 60\<rparr>)
            (slotMinutes (timeToMinutes a) (timeToMinutes b) iv)
        = map (\<lambda>m. formatTime (minuteOfDayTime m))
              (slotMinutes (timeToMinutes a) (timeToMinutes b) iv)"
  proof (rule map_cong [OF refl])
    fix m assume "m \<in> set (slotMinutes (timeToMinutes a) (timeToMinutes b) iv)"
    with iv have "timeToMinutes a \<le> m" by (rule slotMinutes_ge)
    with timeToMinutes_bounds [OF a] have "0 \<le> m" by simp
    then show "formatTime \<lparr>hours = m div 60, minutes = jsRem m 60\<rparr> = formatTime (minuteOfDayTime m)"
      by (simp add: minuteOfDayTime_def jsRem_nonneg)
  qed
  with a b le iv show ?thesis
    by (simp add: generateTimeRange_def rangeLoop_slots [OF iv])
qed

lemma generateTimeRange_invalid:
  assumes "parseTime s = None \<or> parseTime e = None \<or> iv \<le> 0
           \<or> (\<exists>a b. parseTime s = Some a \<and> parseTime e = Some b \<and> timeToMinutes a > timeToMinutes b)"
  shows "generateTimeRange s e iv = Some []"
  using assms by (auto simp add: generateTimeRange_def split: option.splits)

lemma slotMinutes_nonempty: "0 < iv \<Longrightarrow> s \<le> e \<Longrightarrow> slotMinutes s e iv \<noteq> []"
  by (simp add: slotMinutes_step)

text \<open>
  C2: when both endpoint strings parse, the start's minute of the day does not exceed the
  end's and the interval is positive, \<open>generateTimeRange\<close> returns exactly the texts
  that \<open>formatTime\<close> prints for the minutes of the day met when starting at the start's
  minute of the day and advancing by the interval for as long as the current value does
  not exceed the end's. That sequence is not empty, begins at the start, and its last
  value is at most the end while one more step would pass the end. In particular the
  range from 9:00am to 10:00am in steps of 30 is 9:00am, 9:30am, 10:00am.
\<close>

theorem generateTimeRange_slots:
  "(\<forall>a b. parseTime s = Some a \<and> parseTime e = Some b
        \<and> timeToMinutes a \<le> timeToMinutes b \<and> 0 < iv \<longrightarrow>
      generateTimeRange s e iv =
        Some (map (\<lambda>m. formatTime (minuteOfDayTime m))
                  (slotMinutes (timeToMinutes a) (timeToMinutes b) iv))
      \<and> slotMinutes (timeToMinutes a) (timeToMinutes b) iv \<noteq> []
      \<and> hd (slotMinutes (timeToMinutes a) (timeToMinutes b) iv) = timeToMinutes a
      \<and> last (slotMinutes (timeToMinutes a) (timeToMinutes b) iv) \<le> timeToMinutes b
      \<and> timeToMinutes b < last (slotMinutes (timeToMinutes a) (timeToMinutes b) iv) + iv)
   \<and> (\<forall>c d. 0 < iv \<longrightarrow>
        slotMinutes c d iv = (if c \<le> d then c # slotMinutes (c + iv) d iv else []))
   \<and> generateTimeRange ''9:00am'' ''10:00am'' 30 = Some [''9:00am'', ''9:30am'', ''10:00am'']"
proof -
  have main: "generateTimeRange s e iv =
        Some (map (\<lambda>m. formatTime (minuteOfDayTime m))
                  (slotMinutes (timeToMinutes a) (timeToMinutes b) iv))
      \<and> slotMinutes (timeToMinutes a) (timeToMinutes b) iv \<noteq> []
      \<and> hd (slotMinutes (timeToMinutes a) (timeToMinutes b) iv) = timeToMinutes a
      \<and> last (slotMinutes (timeToMinutes a) (timeToMinutes b) iv) \<le> timeToMinutes b
      \<and> timeToMinutes b < last (slotMinutes (timeToMinutes a) (timeToMinutes b) iv) + iv"
    if h: "parseTime s = Some a" "parseTime e = Some b"
        "timeToMinutes a \<le> timeToMinutes b" "0 < iv" for a b
  proof -
    let ?sl = "slotMinutes (timeToMinutes a) (timeToMinutes b) iv"
    have ne: "?sl \<noteq> []" using h(3,4) by (simp add: slotMinutes_nonempty)
    have hd: "hd ?sl = timeToMinutes a" using h(3,4) by (simp add: slotMinutes_step)
    have lastv: "last ?sl = timeToMinutes a + int (length ?sl - 1) * iv"
      using ne by (simp add: last_conv_nth nth_slotMinutes)
    have l1: "last ?sl \<le> timeToMinutes b"
      unfolding lastv using ne by (intro slotMinutes_le [OF h(4)]) simp
    have "0 \<le> (timeToMinutes b - timeToMinutes a) div iv"
      using h(3,4) by (simp add: pos_imp_zdiv_nonneg_iff)
    then have len: "int (length ?sl - 1) = (timeToMinutes b - timeToMinutes a) div iv"
      unfolding length_slotMinutes by linarith
    have "timeToMinutes b - timeToMinutes a
          = ((timeToMinutes b - timeToMinutes a) div iv) * iv + (timeToMinutes b - timeToMinutes a) mod iv"
      by simp
    moreover have "(timeToMinutes b - timeToMinutes a) mod iv < iv"
      using h(4) by simp
    ultimately have l2: "timeToMinutes b < last ?sl + iv"
      unfolding lastv len by linarith
    from generateTimeRange_valid [OF h] ne hd l1 l2 show ?thesis by simp
  qed
  have rec: "slotMinutes c d iv = (if c \<le> d then c # slotMinutes (c + iv) d iv else [])"
    if "0 < iv" for c d
    using that by (simp add: slotMinutes_step slotMinutes_empty)
  have ex: "generateTimeRange ''9:00am'' ''10:00am'' 30 = Some [''9:00am'', ''9:30am'', ''10:00am'']"
    by code_simp
  from main rec ex show ?thesis by blast
qed

theorem generateTimeRange_slots_witness:
  "parseTime ''9:00am'' = Some \<lparr>hours = 9, minutes = 0\<rparr>
   \<and> parseTime ''9:45am'' = Some \<lparr>hours = 9, minutes = 45\<rparr>
   \<and> timeToMinutes \<lparr>hours = 9, minutes = 0\<rparr> \<le> timeToMinutes \<lparr>hours = 9, minutes = 45\<rparr>
   \<and> (0::int) < 20
   \<and> generateTimeRange ''9:00am'' ''9:45am'' 20 = Some [''9:00am'', ''9:20am'', ''9:40am'']"
proof -
  have a: "parseTime ''9:00am'' = Some \<lparr>hours = 9, minutes = 0\<rparr>"
    by code_simp
  have b: "parseTime ''9:45am'' = Some \<lparr>hours = 9, minutes = 45\<rparr>"
    by code_simp
  have le: "timeToMinutes \<lparr>hours = 9, minutes = 0\<rparr> \<le> timeToMinutes \<lparr>hours = 9, minutes = 45\<rparr>"
    by (simp add: timeToMinutes_def)
  have v: "map (\<lambda>m. formatTime (minuteOfDayTime m))
             (slotMinutes (timeToMinutes \<lparr>hours = 9, minutes = 0\<rparr>)
                          (timeToMinutes \<lparr>hours = 9, minutes = 45\<rparr>) 20)
           = [''9:00am'', ''9:20am'', ''9:40am'']"
    by code_simp
  from generateTimeRange_slots [of "''9:00am''" "''9:45am''" 20]
  have "parseTime ''9:00am'' = Some \<lparr>hours = 9, minutes = 0\<rparr>
        \<and> parseTime ''9:45am'' = Some \<lparr>hours = 9, minutes = 45\<rparr>
        \<and> timeToMinutes \<lparr>hours = 9, minutes = 0\<rparr> \<le> timeToMinutes \<lparr>hours = 9, minutes = 45\<rparr>
        \<and> (0::int) < 20 \<longrightarrow>
        generateTimeRange ''9:00am'' ''9:45am'' 20 =
          Some (map (\<lambda>m. formatTime (minuteOfDayTime m))
                 (slotMinutes (timeToMinutes \<lparr>hours = 9, minutes = 0\<rparr>)
                              (timeToMinutes \<lparr>hours = 9, minutes = 45\<rparr>) 20))"
    by blast
  with a b le v show ?thesis by simp
qed

text \<open>
  C5: \<open>generateTimeRange\<close> returns the empty sequence, as an ordinary result, exactly when
  the start text does not parse, or the end text does not parse, or the interval is zero
  or negative, or the start's minute of the day exceeds the end's. In particular the range
  from 10:00am to 9:00am in steps of 30 and the range from 9:00am to 10:00am in steps of 0
  are empty.
\<close>

theorem generateTimeRange_empty:
  "(generateTimeRange s e iv = Some [] \<longleftrightarrow>
      parseTime s = None \<or> parseTime e = None \<or> iv \<le> 0
      \<or> (\<exists>a b. parseTime s = Some a \<and> parseTime e = Some b
                 \<and> timeToMinutes a > timeToMinutes b))
   \<and> generateTimeRange ''10:00am'' ''9:00am'' 30 = Some []
   \<and> generateTimeRange ''9:00am'' ''10:00am'' 0 = Some []"
proof -
  have "generateTimeRange s e iv = Some [] \<longleftrightarrow>
      parseTime s = None \<or> parseTime e = None \<or> iv \<le> 0
      \<or> (\<exists>a b. parseTime s = Some a \<and> parseTime e = Some b
                 \<and> timeToMinutes a > timeToMinutes b)" (is "?l \<longleftrightarrow> ?r")
  proof
    assume ?r
    then show ?l by (rule generateTimeRange_invalid)
  next
    assume l: ?l
    show ?r
    proof (rule ccontr)
      assume "\<not> ?r"
      then obtain a b where h: "parseTime s = Some a" "parseTime e = Some b"
          "timeToMinutes a \<le> timeToMinutes b" "0 < iv"
        by (cases "parseTime s"; cases "parseTime e") auto
      from generateTimeRange_valid [OF h] l slotMinutes_nonempty [OF h(4) h(3)]
      show False by simp
    qed
  qed
  moreover have "generateTimeRange ''10:00am'' ''9:00am'' 30 = Some []"
    by code_simp
  moreover have "generateTimeRange ''9:00am'' ''10:00am'' 0 = Some []"
    by code_simp
  ultimately show ?thesis by blast
qed

theorem generateTimeRange_empty_witness:
  "parseTime ''9am'' = None \<and> generateTimeRange ''9am'' ''10:00am'' 30 = Some []
   \<and> parseTime ''ten'' = None \<and> generateTimeRange ''9:00am'' ''ten'' 30 = Some []
   \<and> (- 30 :: int) \<le> 0 \<and> generateTimeRange ''9:00am'' ''10:00am'' (- 30) = Some []
   \<and> parseTime ''9:00am'' \<noteq> None \<and> parseTime ''10:00am'' \<noteq> None \<and> \<not> (30 :: int) \<le> 0
   \<and> generateTimeRange ''9:00am'' ''10:00am'' 30 \<noteq> Some []"
proof -
  have a: "parseTime ''9am'' = None" by code_simp
  have b: "parseTime ''ten'' = None" by code_simp
  have c: "parseTime ''9:00am'' = Some \<lparr>hours = 9, minutes = 0\<rparr>" by code_simp
  have d: "parseTime ''10:00am'' = Some \<lparr>hours = 10, minutes = 0\<rparr>" by code_simp
  have le: "\<not> timeToMinutes \<lparr>hours = 9, minutes = 0\<rparr> > timeToMinutes \<lparr>hours = 10, minutes = 0\<rparr>"
    by (simp add: timeToMinutes_def)
  from generateTimeRange_empty [of "''9am''" "''10:00am''" 30] a
  have r1: "generateTimeRange ''9am'' ''10:00am'' 30 = Some []" by blast
  from generateTimeRange_empty [of "''9:00am''" "''ten''" 30] b
  have r2: "generateTimeRange ''9:00am'' ''ten'' 30 = Some []" by blast
  from generateTimeRange_empty [of "''9:00am''" "''10:00am''" "- 30"]
  have r3: "generateTimeRange ''9:00am'' ''10:00am'' (- 30) = Some []" by simp
  from generateTimeRange_empty [of "''9:00am''" "''10:00am''" 30] c d le
  have r4: "generateTimeRange ''9:00am'' ''10:00am'' 30 \<noteq> Some []" by simp
  from a b c d r1 r2 r3 r4 show ?thesis by simp
qed

text \<open>
  C9: \<open>generateTimeRange\<close> returns a sequence on every input. When both endpoints parse,
  the start does not exceed the end and the interval is positive, a budget of
  (end - start) div interval + 1 passes through the loop body is enough for the loop to
  leave, with the very sequence that \<open>generateTimeRange\<close> returns, and that sequence has at
  most that many elements.
\<close>

theorem generateTimeRange_terminates:
  "(\<exists>ts. generateTimeRange s e iv = Some ts)
   \<and> (\<forall>a b. parseTime s = Some a \<and> parseTime e = Some b
          \<and> timeToMinutes a \<le> timeToMinutes b \<and> 0 < iv \<longrightarrow>
        (\<exists>ts. rangeLoopFuel (nat ((timeToMinutes b - timeToMinutes a) div iv + 1))
                 (timeToMinutes a) (timeToMinutes b) iv [] = Some ts
              \<and> generateTimeRange s e iv = Some ts
              \<and> int (length ts) \<le> (timeToMinutes b - timeToMinutes a) div iv + 1))"
proof -
  have total: "\<exists>ts. generateTimeRange s e iv = Some ts"
  proof (cases "parseTime s = None \<or> parseTime e = None \<or> iv \<le> 0
      \<or> (\<exists>a b. parseTime s = Some a \<and> parseTime e = Some b
                 \<and> timeToMinutes a > timeToMinutes b)")
    case True
    then show ?thesis using generateTimeRange_invalid by blast
  next
    case False
    then obtain a b where h: "parseTime s = Some a" "parseTime e = Some b"
        "timeToMinutes a \<le> timeToMinutes b" "0 < iv"
      by (cases "parseTime s"; cases "parseTime e") auto
    from generateTimeRange_valid [OF h] show ?thesis by blast
  qed
  have bound: "\<exists>ts. rangeLoopFuel (nat ((timeToMinutes b - timeToMinutes a) div iv + 1))
                 (timeToMinutes a) (timeToMinutes b) iv [] = Some ts
              \<and> generateTimeRange s e iv = Some ts
              \<and> int (length ts) \<le> (timeToMinutes b - timeToMinutes a) div iv + 1"
    if h: "parseTime s = Some a" "parseTime e = Some b"
        "timeToMinutes a \<le> timeToMinutes b" "0 < iv" for a b
  proof -
    let ?sl = "slotMinutes (timeToMinutes a) (timeToMinutes b) iv"
    let ?ts = "map (\<lambda>m. formatTime \<lparr>hours = m div 60, minutes = jsRem m 60\<rparr>) ?sl"
    have len: "length ?sl \<le> nat ((timeToMinutes b - timeToMinutes a) div iv + 1)"
      by (simp add: length_slotMinutes)
    have f: "rangeLoopFuel (nat ((timeToMinutes b - timeToMinutes a) div iv + 1))
               (timeToMinutes a) (timeToMinutes b) iv [] = Some ?ts"
      using rangeLoopFuel_slots [OF h(4) len, of "[]"] by simp
    have g: "generateTimeRange s e iv = Some ?ts"
      using h by (simp add: generateTimeRange_def rangeLoop_slots [OF h(4)])
    have "0 \<le> (timeToMinutes b - timeToMinutes a) div iv"
      using h(3,4) by (simp add: pos_imp_zdiv_nonneg_iff)
    then have l: "int (length ?ts) \<le> (timeToMinutes b - timeToMinutes a) div iv + 1"
      by (simp add: length_slotMinutes)
    from f g l show ?thesis by blast
  qed
  from total bound show ?thesis by blast
qed

theorem generateTimeRange_terminates_witness:
  "parseTime ''9:00am'' = Some \<lparr>hours = 9, minutes = 0\<rparr>
   \<and> parseTime ''9:45am'' = Some \<lparr>hours = 9, minutes = 45\<rparr>
   \<and> timeToMinutes \<lparr>hours = 9, minutes = 0\<rparr> \<le> timeToMinutes \<lparr>hours = 9, minutes = 45\<rparr>
   \<and> (0::int) < 20
   \<and> (\<exists>ts. rangeLoopFuel 3 540 585 20 [] = Some ts
          \<and> generateTimeRange ''9:00am'' ''9:45am'' 20 = Some ts \<and> length ts \<le> 3)"
proof -
  have a: "parseTime ''9:00am'' = Some \<lparr>hours = 9, minutes = 0\<rparr>"
    by code_simp
  have b: "parseTime ''9:45am'' = Some \<lparr>hours = 9, minutes = 45\<rparr>"
    by code_simp
  have le: "timeToMinutes \<lparr>hours = 9, minutes = 0\<rparr> \<le> timeToMinutes \<lparr>hours = 9, minutes = 45\<rparr>"
    by (simp add: timeToMinutes_def)
  have ta: "timeToMinutes \<lparr>hours = 9, minutes = 0\<rparr> = 540"
    by (simp add: timeToMinutes_def)
  have tb: "timeToMinutes \<lparr>hours = 9, minutes = 45\<rparr> = 585"
    by (simp add: timeToMinutes_def)
  have n: "nat ((585 - 540) div 20 + 1) = 3"
    by simp
  from generateTimeRange_terminates [of "''9:00am''" "''9:45am''" 20] a b le
  have "\<exists>ts. rangeLoopFuel (nat ((timeToMinutes \<lparr>hours = 9, minutes = 45\<rparr>
                                    - timeToMinutes \<lparr>hours = 9, minutes = 0\<rparr>) div 20 + 1))
                 (timeToMinutes \<lparr>hours = 9, minutes = 0\<rparr>)
                 (timeToMinutes \<lparr>hours = 9, minutes = 45\<rparr>) 20 [] = Some ts
              \<and> generateTimeRange ''9:00am'' ''9:45am'' 20 = Some ts
              \<and> int (length ts) \<le> (timeToMinutes \<lparr>hours = 9, minutes = 45\<rparr>
                                    - timeToMinutes \<lparr>hours = 9, minutes = 0\<rparr>) div 20 + 1"
    by simp
  then have "\<exists>ts. rangeLoopFuel 3 540 585 20 [] = Some ts
          \<and> generateTimeRange ''9:00am'' ''9:45am'' 20 = Some ts \<and> length ts \<le> 3"
    unfolding ta tb by simp
  with a b le show ?thesis by simp
qed

section \<open>Filtering by typed text\<close>

lemma includesStr_substringOf: "includesStr s sub \<longleftrightarrow> substringOf sub s"
proof (induction s)
  case Nil
  show ?case by (auto simp add: substringOf_def)
next
  case (Cons c s)
  show ?case
  proof
    assume "includesStr (c # s) sub"
    then consider "prefix sub (c # s)" | "includesStr s sub" by auto
    then show "substringOf sub (c # s)"
    proof cases
      case 1
      then obtain ss where "c # s = sub @ ss" by (auto simp add: prefix_def)
      then have "c # s = [] @ sub @ ss" by simp
      then show ?thesis unfolding substringOf_def by blast
    next
      case 2
      with Cons.IH obtain ps ss where "s = ps @ sub @ ss" by (auto simp add: substringOf_def)
      then have "c # s = (c # ps) @ sub @ ss" by simp
      then show ?thesis unfolding substringOf_def by blast
    qed
  next
    assume "substringOf sub (c # s)"
    then obtain ps ss where d: "c # s = ps @ sub @ ss" by (auto simp add: substringOf_def)
    show "includesStr (c # s) sub"
    proof (cases ps)
      case Nil
      with d have "prefix sub (c # s)" by (simp add: prefix_def)
      then show ?thesis by simp
    next
      case (Cons p ps')
      with d have "s = ps' @ sub @ ss" by simp
      then have "substringOf sub s" unfolding substringOf_def by blast
      with Cons.IH show ?thesis by simp
    qed
  qed
qed

lemma smallLetter_lowerChar: "smallLetter = lowerChar"
proof
  fix c
  have "code c \<in> set capitalCodes \<longleftrightarrow>
        (65 \<le> code c \<and> code c \<le> 90) \<or> (192 \<le> code c \<and> code c \<le> 222 \<and> code c \<noteq> 215)"
    unfolding capitalCodes_def set_append set_upt by (simp only: Un_iff atLeastLessThan_iff) arith
  then show "smallLetter c = lowerChar c"
    by (simp add: smallLetter_def lowerChar_def)
qed

lemma whitespace_isSpace: "(code c \<notin> set whitespaceCodes) = (\<not> isSpace c)"
  by (simp add: whitespaceCodes_def isSpace_def)

lemma normalForm_clean: "normalForm s = stripSpace (toLowerCase s)"
  by (simp add: normalForm_def stripSpace_def toLowerCase_def
      smallLetter_lowerChar whitespace_isSpace)

text \<open>
  C6: \<open>filterTimesByInput\<close> returns the options unchanged when the input, lowercased and
  stripped of whitespace, is empty; otherwise it keeps, in their original order, exactly
  the options whose own lowercased, whitespace-stripped form contains the normalised input
  as a substring at any position. Lowercasing and stripping are those of \<open>normalForm\<close>,
  so capitals in the input or in an option match their small letters. In particular
  filtering 9:00am, 9:30am, 10:00am by \<open>9\<close> keeps 9:00am and 9:30am, and filtering by
  \<open>AM\<close> keeps every option that ends in am.
\<close>

theorem filterTimesByInput_substring:
  "filterTimesByInput ts input =
     (if normalForm input = [] then ts
      else filter (\<lambda>t. substringOf (normalForm input) (normalForm t)) ts)
   \<and> filterTimesByInput [''9:00am'', ''9:30am'', ''10:00am''] ''9'' = [''9:00am'', ''9:30am'']
   \<and> filterTimesByInput [''9:00am'', ''9:30am'', ''10:00am'', ''10:30am''] ''AM''
       = [''9:00am'', ''9:30am'', ''10:00am'', ''10:30am'']"
proof -
  have "filterTimesByInput ts input =
     (if normalForm input = [] then ts
      else filter (\<lambda>t. substringOf (normalForm input) (normalForm t)) ts)"
    by (simp add: filterTimesByInput_def normalForm_clean includesStr_substringOf)
  moreover have "filterTimesByInput [''9:00am'', ''9:30am'', ''10:00am''] ''9'' = [''9:00am'', ''9:30am'']"
    by code_simp
  moreover have "filterTimesByInput [''9:00am'', ''9:30am'', ''10:00am'', ''10:30am''] ''AM''
       = [''9:00am'', ''9:30am'', ''10:00am'', ''10:30am'']"
    by code_simp
  ultimately show ?thesis by simp
qed

theorem filterTimesByInput_substring_witness:
  "normalForm '' P m '' = ''pm''
   \<and> filter (\<lambda>t. substringOf (normalForm '' P m '') (normalForm t))
       [''9:00 AM'', ''9:30 pm'', ''10:30 PM''] = [''9:30 pm'', ''10:30 PM'']
   \<and> normalForm ''  '' = []
   \<and> filterTimesByInput [''9:00 AM'', ''9:30 AM''] ''  '' = [''9:00 AM'', ''9:30 AM'']"
proof -
  have c: "normalForm '' P m '' = ''pm''" by code_simp
  have d: "normalForm ''  '' = []" by code_simp
  have v: "filterTimesByInput [''9:00 AM'', ''9:30 pm'', ''10:30 PM''] '' P m ''
           = [''9:30 pm'', ''10:30 PM'']"
    by code_simp
  from filterTimesByInput_substring [of "[''9:00 AM'', ''9:30 pm'', ''10:30 PM'']" "'' P m ''"] c v
  have r1: "filter (\<lambda>t. substringOf (normalForm '' P m '') (normalForm t))
       [''9:00 AM'', ''9:30 pm'', ''10:30 PM''] = [''9:30 pm'', ''10:30 PM'']"
    by simp
  from filterTimesByInput_substring [of "[''9:00 AM'', ''9:30 AM'']" "''  ''"] d
  have r2: "filterTimesByInput [''9:00 AM'', ''9:30 AM''] ''  '' = [''9:00 AM'', ''9:30 AM'']"
    by simp
  from c d r1 r2 show ?thesis by simp
qed

section \<open>The order of a range\<close>

lemma parse_slot:
  assumes "0 \<le> m" "m \<le> 1439"
  shows "parseTime (formatTime (minuteOfDayTime m)) = Some (minuteOfDayTime m)"
proof (rule parse_printed)
  show "0 \<le> hours (minuteOfDayTime m)"
    using assms by (simp add: minuteOfDayTime_def pos_imp_zdiv_nonneg_iff)
  show "hours (minuteOfDayTime m) \<le> 23"
    using assms by (simp add: minuteOfDayTime_def)
  show "0 \<le> minutes (minuteOfDayTime m)"
    by (simp add: minuteOfDayTime_def)
  show "minutes (minuteOfDayTime m) \<le> 59"
    by (simp add: minuteOfDayTime_def)
qed

text \<open>
  C7: every non-empty sequence that \<open>generateTimeRange\<close> returns is ordered. Both
  endpoints parse and the interval is positive; each element parses to a time, the
  element at index \<open>i\<close> to the time \<open>i\<close> intervals after the start; the minutes of the
  day of consecutive elements do not decrease and differ by exactly the interval; the first
  element denotes the start; the last element denotes a time at most the end and less than
  one interval before it, and denotes the end itself whenever the interval divides the
  distance from the start to the end.
\<close>

theorem generateTimeRange_ordered:
  assumes g: "generateTimeRange s e iv = Some ts" and ne: "ts \<noteq> []"
  shows "\<exists>a b. parseTime s = Some a \<and> parseTime e = Some b \<and> 0 < iv
    \<and> (\<forall>i < length ts. \<exists>v. parseTime (ts ! i) = Some v
           \<and> timeToMinutes v = timeToMinutes a + int i * iv)
    \<and> (\<forall>i. Suc i < length ts \<longrightarrow>
          (\<exists>v w. parseTime (ts ! i) = Some v \<and> parseTime (ts ! Suc i) = Some w
             \<and> timeToMinutes v \<le> timeToMinutes w
             \<and> timeToMinutes w - timeToMinutes v = iv))
    \<and> parseTime (hd ts) = Some a
    \<and> (\<exists>v. parseTime (last ts) = Some v \<and> timeToMinutes v \<le> timeToMinutes b
           \<and> timeToMinutes b - timeToMinutes v < iv)
    \<and> (iv dvd (timeToMinutes b - timeToMinutes a) \<longrightarrow> parseTime (last ts) = Some b)"
proof -
  have "\<not> (parseTime s = None \<or> parseTime e = None \<or> iv \<le> 0
      \<or> (\<exists>a b. parseTime s = Some a \<and> parseTime e = Some b
                 \<and> timeToMinutes a > timeToMinutes b))"
  proof
    assume "parseTime s = None \<or> parseTime e = None \<or> iv \<le> 0
      \<or> (\<exists>a b. parseTime s = Some a \<and> parseTime e = Some b
                 \<and> timeToMinutes a > timeToMinutes b)"
    then have "generateTimeRange s e iv = Some []" by (rule generateTimeRange_invalid)
    with g ne show False by simp
  qed
  then obtain a b where h: "parseTime s = Some a" "parseTime e = Some b"
      "timeToMinutes a \<le> timeToMinutes b" "0 < iv"
    by (cases "parseTime s"; cases "parseTime e") auto
  let ?sm = "timeToMinutes a" and ?em = "timeToMinutes b"
  let ?sl = "slotMinutes ?sm ?em iv"
  have ts: "ts = map (\<lambda>m. formatTime (minuteOfDayTime m)) ?sl"
    using generateTimeRange_valid [OF h] g by simp
  then have len: "length ts = length ?sl" by simp
  have sm0: "0 \<le> ?sm" and em: "?em \<le> 1439"
    using timeToMinutes_bounds [OF h(1)] timeToMinutes_bounds [OF h(2)] by simp_all
  have elem: "parseTime (ts ! i) = Some (minuteOfDayTime (?sm + int i * iv))
              \<and> ?sm + int i * iv \<le> ?em"
    if i: "i < length ts" for i
  proof -
    from i len have i': "i < length ?sl" by simp
    have le: "?sm + int i * iv \<le> ?em"
      using slotMinutes_le [OF h(4) i'] .
    have "0 \<le> int i * iv" using h(4) by simp
    with sm0 have ge: "0 \<le> ?sm + int i * iv" by simp
    from le em have "?sm + int i * iv \<le> 1439" by simp
    from parse_slot [OF ge this] le i' show ?thesis
      by (simp add: ts nth_slotMinutes)
  qed
  have p1: "\<forall>i < length ts. \<exists>v. parseTime (ts ! i) = Some v
           \<and> timeToMinutes v = ?sm + int i * iv"
    using elem by (auto simp add: timeToMinutes_minuteOfDayTime)
  have p2: "\<forall>i. Suc i < length ts \<longrightarrow>
          (\<exists>v w. parseTime (ts ! i) = Some v \<and> parseTime (ts ! Suc i) = Some w
             \<and> timeToMinutes v \<le> timeToMinutes w
             \<and> timeToMinutes w - timeToMinutes v = iv)"
  proof (intro allI impI)
    fix i assume i: "Suc i < length ts"
    then have "i < length ts" by simp
    from elem [OF this] elem [OF i] h(4)
    show "\<exists>v w. parseTime (ts ! i) = Some v \<and> parseTime (ts ! Suc i) = Some w
             \<and> timeToMinutes v \<le> timeToMinutes w
             \<and> timeToMinutes w - timeToMinutes v = iv"
      by (simp add: timeToMinutes_minuteOfDayTime algebra_simps)
  qed
  have ma: "minuteOfDayTime ?sm = a"
    using parseTime_bounds [OF h(1)] by (simp add: minuteOfDayTime_timeToMinutes)
  have mb: "minuteOfDayTime ?em = b"
    using parseTime_bounds [OF h(2)] by (simp add: minuteOfDayTime_timeToMinutes)
  have pos: "0 < length ts" using ne by simp
  have p3: "parseTime (hd ts) = Some a"
    using elem [OF pos] ne by (simp add: hd_conv_nth ma)
  have nn: "0 \<le> (?em - ?sm) div iv"
    using h(3,4) by (simp add: pos_imp_zdiv_nonneg_iff)
  then have k: "int (length ts - 1) = (?em - ?sm) div iv"
    unfolding len length_slotMinutes by linarith
  have lastp: "parseTime (last ts) = Some (minuteOfDayTime (?sm + ((?em - ?sm) div iv) * iv))
               \<and> ?sm + ((?em - ?sm) div iv) * iv \<le> ?em"
  proof -
    from k have k': "int (length ts - Suc 0) = (?em - ?sm) div iv" by simp
    from ne have "length ts - Suc 0 < length ts" by simp
    from elem [OF this] ne show ?thesis
      by (simp add: last_conv_nth k')
  qed
  have dm: "?em - ?sm = ((?em - ?sm) div iv) * iv + (?em - ?sm) mod iv"
    by simp
  have "(?em - ?sm) mod iv < iv" using h(4) by simp
  with dm have rest: "?em - (?sm + ((?em - ?sm) div iv) * iv) < iv" by linarith
  have p4: "\<exists>v. parseTime (last ts) = Some v \<and> timeToMinutes v \<le> ?em
           \<and> ?em - timeToMinutes v < iv"
    using lastp rest by (auto simp add: timeToMinutes_minuteOfDayTime)
  have p5: "iv dvd (?em - ?sm) \<longrightarrow> parseTime (last ts) = Some b"
  proof
    assume "iv dvd (?em - ?sm)"
    then have "((?em - ?sm) div iv) * iv = ?em - ?sm" by simp
    then have "?sm + ((?em - ?sm) div iv) * iv = ?em" by simp
    with lastp mb show "parseTime (last ts) = Some b" by simp
  qed
  from h(1,2,4) p1 p2 p3 p4 p5 show ?thesis by blast
qed

theorem generateTimeRange_ordered_witness:
  "generateTimeRange ''9:00am'' ''9:45am'' 20 = Some [''9:00am'', ''9:20am'', ''9:40am'']
   \<and> [''9:00am'', ''9:20am'', ''9:40am''] \<noteq> ([] :: string list)
   \<and> (\<exists>a b. parseTime ''9:00am'' = Some a \<and> parseTime ''9:45am'' = Some b
        \<and> parseTime (hd [''9:00am'', ''9:20am'', ''9:40am'']) = Some a
        \<and> (\<exists>v. parseTime (last [''9:00am'', ''9:20am'', ''9:40am'']) = Some v
               \<and> timeToMinutes v \<le> timeToMinutes b \<and> timeToMinutes b - timeToMinutes v < 20))"
proof -
  have g: "generateTimeRange ''9:00am'' ''9:45am'' 20 = Some [''9:00am'', ''9:20am'', ''9:40am'']"
    by code_simp
  have ne: "[''9:00am'', ''9:20am'', ''9:40am''] \<noteq> ([] :: string list)"
    by simp
  from generateTimeRange_ordered [OF g ne] g ne show ?thesis by blast
qed

section \<open>Parsing a normalised string\<close>

text \<open>
  C10: for every string \<open>s\<close>, parsing the normalised string \<open>cleanTimeString s\<close> gives the
  same result as parsing \<open>s\<close> itself, a time or none alike.
\<close>

theorem parseTime_cleanTimeString: "parseTime (cleanTimeString s) = parseTime s"
  using cleanTimeString_idem [of s] by (simp add: parseTime_def cleanTimeString_def)

theorem parseTime_cleanTimeString_witness:
  "parseTime (cleanTimeString '' 2 : 30 PM '') = Some \<lparr>hours = 14, minutes = 30\<rparr>"
proof -
  have "parseTime '' 2 : 30 PM '' = Some \<lparr>hours = 14, minutes = 30\<rparr>"
    by code_simp
  with parseTime_cleanTimeString [of "'' 2 : 30 PM ''"] show ?thesis
    by simp
qed

end
